theory Spec2Isabelle
  imports Main "HOL-Library.Multiset" "HOL-Library.Char_ord" "HOL-Library.List_Lexorder"
    "HOL-Library.Sublist"
begin

section \<open>Errors and readers\<close>

text \<open>
  Go functions of the repository return \<open>(value, error)\<close>. An error is a value of
  \<open>error\<close>: the package variable \<open>ErrorCommandTimeout\<close> of \<open>pkg/clients/command.go\<close>
  is a constructor of its own (Go compares it by identity), every other error is
  \<open>Error\<close> with its message, and a run-time panic is \<open>Panic\<close>. A fallible function
  returns \<open>error + 'a\<close>, with \<open>Inl\<close> for the error.
\<close>

datatype error = ErrorCommandTimeout | Error string | Panic string

text \<open>
  An \<open>io.ReadCloser\<close> as \<open>Hash1\<close> uses it: \<open>io.Copy\<close> either delivers all the bytes or
  fails. The \<open>open\<close> argument of a hash function may fail itself.
\<close>

type_synonym reader = "error + string"
type_synonym opener = "string \<Rightarrow> error + reader"

section \<open>pkg/utils/dirhash/hash.go: Hash1\<close>

text \<open>
  \<open>fmt.Fprintf(h, "%x", bytes)\<close>: two lower-case hexadecimal digits for each byte.
\<close>

definition hex_digit :: "nat \<Rightarrow> char" where
  "hex_digit n = ''0123456789abcdef'' ! (n mod 16)"

definition hex :: "string \<Rightarrow> string" where
  "hex bs = concat (map (\<lambda>c. [hex_digit (of_char c div 16), hex_digit (of_char c)]) bs)"

text \<open>\<open>base64.StdEncoding.EncodeToString\<close>: the standard alphabet, padded with \<open>=\<close>.\<close>

definition b64_digit :: "nat \<Rightarrow> char" where
  "b64_digit n =
     ''ABCDEFGHIJKLMNOPQRSTUVWXYZabcdefghijklmnopqrstuvwxyz0123456789+/'' ! (n mod 64)"

fun b64_groups :: "nat list \<Rightarrow> string" where
  "b64_groups [] = []"
| "b64_groups [a] = [b64_digit (a div 4), b64_digit ((a mod 4) * 16), CHR ''='', CHR ''='']"
| "b64_groups [a, b] =
     [b64_digit (a div 4), b64_digit ((a mod 4) * 16 + b div 16),
      b64_digit ((b mod 16) * 4), CHR ''='']"
| "b64_groups (a # b # c # r) =
     [b64_digit (a div 4), b64_digit ((a mod 4) * 16 + b div 16),
      b64_digit ((b mod 16) * 4 + c div 64), b64_digit c] @ b64_groups r"

definition EncodeToString :: "string \<Rightarrow> string" where
  "EncodeToString bs = b64_groups (map of_char bs)"

text \<open>
  \<open>sort.Strings\<close> orders Go strings byte by byte; on \<open>string\<close> this is the
  lexicographic order of \<open>List_Lexorder\<close> over the byte order of \<open>Char_ord\<close>. Equal
  strings cannot be told apart, so the sorted list is unique and \<open>sort\<close> computes it.
\<close>

definition sort_Strings :: "string list \<Rightarrow> string list" where
  "sort_Strings files = sort files"

text \<open>
  The loop of \<open>Hash1\<close> (lines 55-70) over the sorted names. \<open>sha256\<close> is the digest
  function of \<open>crypto/sha256\<close>, a parameter of the model; \<open>h\<close> is the text written to
  the outer hash so far. Each early \<open>return\<close> of the source is an \<open>Inl\<close>.
\<close>

fun hash_loop :: "(string \<Rightarrow> string) \<Rightarrow> opener \<Rightarrow> string list \<Rightarrow> string \<Rightarrow> error + string" where
  "hash_loop sha256 open' [] h = Inr h"
| "hash_loop sha256 open' (file # files) h =
     (if CHR 0x0A \<in> set file
      then Inl (Error ''dirhash: filenames with newlines are not supported'')
      else case open' file of
             Inl err \<Rightarrow> Inl err
           | Inr r \<Rightarrow>
               (case r of
                  Inl err \<Rightarrow> Inl err
                | Inr content \<Rightarrow>
                    hash_loop sha256 open' files
                      (h @ hex (sha256 content) @ ''  '' @ file @ [CHR 0x0A])))"

definition Hash1 :: "(string \<Rightarrow> string) \<Rightarrow> string list \<Rightarrow> opener \<Rightarrow> error + string" where
  "Hash1 sha256 files open' =
     (case hash_loop sha256 open' (sort_Strings files) [] of
        Inl err \<Rightarrow> Inl err
      | Inr h \<Rightarrow> Inr (''h1:'' @ EncodeToString (sha256 h)))"


subsection \<open>Hash1 on slices in memory\<close>

text \<open>
  A Go slice is a view \<open>(array, offset, len)\<close> of a backing array, and \<open>sort.Strings\<close>
  writes through it. The memory is the list of the backing arrays allocated so far; an
  allocation appends one. \<open>append([]string(nil), files...)\<close> (line 53) returns the nil
  slice when there is nothing to copy and a slice of a fresh array otherwise.
\<close>

record slice =
  array :: nat
  offset :: nat
  len :: nat

type_synonym memory = "string list list"

definition nil_slice :: slice where
  "nil_slice = \<lparr>array = 0, offset = 0, len = 0\<rparr>"

definition read_slice :: "memory \<Rightarrow> slice \<Rightarrow> string list" where
  "read_slice m s = (if len s = 0 then [] else take (len s) (drop (offset s) (m ! array s)))"

definition write_slice :: "memory \<Rightarrow> slice \<Rightarrow> string list \<Rightarrow> memory" where
  "write_slice m s xs =
     (if len s = 0 then m
      else m[array s := take (offset s) (m ! array s) @ xs
                          @ drop (offset s + len s) (m ! array s)])"

definition append_nil :: "memory \<Rightarrow> string list \<Rightarrow> memory \<times> slice" where
  "append_nil m elems =
     (if elems = [] then (m, nil_slice)
      else (m @ [elems], \<lparr>array = length m, offset = 0, len = length elems\<rparr>))"

definition sort_Strings_mem :: "memory \<Rightarrow> slice \<Rightarrow> memory" where
  "sort_Strings_mem m s = write_slice m s (sort_Strings (read_slice m s))"

definition Hash1_mem ::
  "(string \<Rightarrow> string) \<Rightarrow> memory \<Rightarrow> slice \<Rightarrow> opener \<Rightarrow> (error + string) \<times> memory" where
  "Hash1_mem sha256 m files open' =
     (let (m1, files1) = append_nil m (read_slice m files);
          m2 = sort_Strings_mem m1 files1
      in (case hash_loop sha256 open' (read_slice m2 files1) [] of
            Inl err \<Rightarrow> Inl err
          | Inr h \<Rightarrow> Inr (''h1:'' @ EncodeToString (sha256 h)),
          m2))"

section \<open>Paths and globs used by the directory hasher\<close>

text \<open>
  The functions of \<open>path/filepath\<close>, \<open>strings\<close> and \<open>github.com/ryanuber/go-glob\<close>
  that \<open>hash.go\<close> calls, for the Unix path convention (\<open>os.PathSeparator\<close> is \<open>/\<close>).
\<close>

definition Separator :: char where
  "Separator = CHR ''/''"

fun split_on :: "char \<Rightarrow> string \<Rightarrow> string list" where
  "split_on c [] = [[]]"
| "split_on c (x # xs) =
     (if x = c then [] # split_on c xs
      else case split_on c xs of p # ps \<Rightarrow> (x # p) # ps | [] \<Rightarrow> [[x]])"

fun join_with :: "string \<Rightarrow> string list \<Rightarrow> string" where
  "join_with sep [] = []"
| "join_with sep [x] = x"
| "join_with sep (x # y # ys) = x @ sep @ join_with sep (y # ys)"

text \<open>
  \<open>filepath.Clean\<close>: empty and \<open>.\<close> elements are dropped, \<open>..\<close> removes the element
  before it (at the root it is dropped, at the start of a relative path it is kept), the
  empty result is \<open>.\<close>. \<open>out\<close> is the stack of elements kept so far, last first.
\<close>

fun clean_elems :: "bool \<Rightarrow> string list \<Rightarrow> string list \<Rightarrow> string list" where
  "clean_elems rooted [] out = rev out"
| "clean_elems rooted (c # cs) out =
     (if c = [] \<or> c = ''.'' then clean_elems rooted cs out
      else if c = ''..'' then
        (case out of
           [] \<Rightarrow> if rooted then clean_elems rooted cs [] else clean_elems rooted cs [c]
         | t # ts \<Rightarrow> if t = ''..'' then clean_elems rooted cs (c # out)
                     else clean_elems rooted cs ts)
      else clean_elems rooted cs (c # out))"

definition Clean :: "string \<Rightarrow> string" where
  "Clean path =
     (if path = [] then ''.''
      else let rooted = (hd path = Separator);
               s = join_with [Separator] (clean_elems rooted (split_on Separator path) [])
           in if rooted then Separator # s else if s = [] then ''.'' else s)"

text \<open>\<open>filepath.Join\<close> of two elements: leading empty elements are ignored.\<close>

definition Join :: "string \<Rightarrow> string \<Rightarrow> string" where
  "Join a b =
     (if a \<noteq> [] then Clean (a @ [Separator] @ b)
      else if b \<noteq> [] then Clean b
      else [])"

definition ToSlash :: "string \<Rightarrow> string" where
  "ToSlash path =
     (if Separator = CHR ''/'' then path
      else map (\<lambda>c. if c = Separator then CHR ''/'' else c) path)"

definition HasPrefix :: "string \<Rightarrow> string \<Rightarrow> bool" where
  "HasPrefix s pre = prefix pre s"

definition HasSuffix :: "string \<Rightarrow> string \<Rightarrow> bool" where
  "HasSuffix s suf = suffix suf s"

definition TrimPrefix :: "string \<Rightarrow> string \<Rightarrow> string" where
  "TrimPrefix s pre = (if HasPrefix s pre then drop (length pre) s else s)"

text \<open>\<open>strings.Index\<close>: the position of the first occurrence, \<open>None\<close> for Go's \<open>-1\<close>.\<close>

fun Index :: "string \<Rightarrow> string \<Rightarrow> nat option" where
  "Index [] sub = (if sub = [] then Some 0 else None)"
| "Index (x # xs) sub =
     (if prefix sub (x # xs) then Some 0 else map_option Suc (Index xs sub))"

text \<open>
  \<open>glob.Glob\<close> of go-glob. \<open>glob_parts\<close> is its loop over all parts but the last:
  \<open>first\<close> tells the iteration \<open>i = 0\<close>, which must match at position 0 unless the
  pattern starts with the wildcard.
\<close>

fun glob_parts :: "bool \<Rightarrow> bool \<Rightarrow> bool \<Rightarrow> string list \<Rightarrow> string \<Rightarrow> bool" where
  "glob_parts first leadingGlob trailingGlob [] subj = False"
| "glob_parts first leadingGlob trailingGlob [last_part] subj =
     (trailingGlob \<or> HasSuffix subj last_part)"
| "glob_parts first leadingGlob trailingGlob (part # parts) subj =
     (case Index subj part of
        None \<Rightarrow> False
      | Some idx \<Rightarrow>
          if first \<and> \<not> leadingGlob \<and> idx \<noteq> 0 then False
          else glob_parts False leadingGlob trailingGlob parts
                 (drop (idx + length part) subj))"

definition Glob :: "string \<Rightarrow> string \<Rightarrow> bool" where
  "Glob pattern subj =
     (if pattern = [] then subj = pattern
      else if pattern = ''*'' then True
      else let parts = split_on (CHR ''*'') pattern
           in if length parts = 1 then subj = pattern
              else glob_parts True (HasPrefix pattern ''*'') (HasSuffix pattern ''*'')
                     parts subj)"


section \<open>pkg/utils/dirhash/hash.go: DirFiles, HashDir, HashZip\<close>

text \<open>
  What \<open>symwalk.Walk\<close> finds below a path: a regular file, a directory with its entries
  (name and subtree) in the order the file system lists them, or a path whose inspection
  fails. Symbolic links to directories are followed, so a linked directory appears as a
  \<open>Dir\<close> under the link's name.
\<close>

datatype tree = File | Dir "(string \<times> tree) list" | Unreadable string

type_synonym visit = "string \<times> bool \<times> error option"

text \<open>
  \<open>symwalk.Walk\<close> runs \<open>filepath.Walk\<close>, which calls its function on a directory before
  the entries of that directory, sorts the names of the entries (it walks in lexical
  order) and joins each name to the directory's path with \<open>filepath.Join\<close>. A visit is
  the triple (path, \<open>info.IsDir()\<close>, \<open>err\<close>).
\<close>

function walk :: "string \<Rightarrow> tree \<Rightarrow> visit list" where
  "walk path File = [(path, False, None)]"
| "walk path (Unreadable msg) = [(path, False, Some (Error msg))]"
| "walk path (Dir entries) =
     (path, True, None)
       # concat (map (\<lambda>(name, t). walk (Join path name) t) (sort_key fst entries))"
  by pat_completeness auto
termination
proof (relation "measure (\<lambda>(path, t). size t)")
  show "wf (measure (\<lambda>(path, t). size t))"
    by simp
next
  fix path :: string and entries :: "(string \<times> tree) list" and x :: "string \<times> tree"
    and name :: string and t :: tree
  assume "x \<in> set (sort_key fst entries)" and "(name, t) = x"
  then have "(name, t) \<in> set entries"
    by simp
  then have "size t < Suc (size_list (size_prod (\<lambda>x. 0) size) entries)"
    by (induction entries) auto
  then show "((Join path name, t), (path, Dir entries)) \<in> measure (\<lambda>(path, t). size t)"
    by simp
qed

text \<open>
  The same tree with the entries of every directory in the walker's order. Two trees with
  the same canonical form hold the same files and directories and differ at most in the
  order in which the file system lists the entries.
\<close>

fun canon :: "tree \<Rightarrow> tree" where
  "canon File = File"
| "canon (Unreadable msg) = Unreadable msg"
| "canon (Dir entries) = Dir (sort_key fst (map (\<lambda>(name, t). (name, canon t)) entries))"

text \<open>
  The file system as the hasher reads it: the tree found at a path, \<open>os.Open\<close>, and
  \<open>zip.OpenReader\<close>. An entry of a zip archive carries its name, the result of opening
  and reading it, and metadata.
\<close>

record zip_File =
  Name :: string
  Method :: nat
  Modified :: nat
  ExternalAttrs :: nat
  Open :: "error + reader"

record filesystem =
  tree_at :: "string \<Rightarrow> tree"
  os_Open :: opener
  zip_OpenReader :: "string \<Rightarrow> error + zip_File list"

text \<open>The two variables the walk function of \<open>DirFiles\<close> closes over.\<close>

record walk_vars =
  ignoredDirectories :: "string list"
  files :: "string list"

text \<open>
  The first loop of the walk function (lines 103-114): the first glob of \<open>ignore\<close> that
  matches decides; \<open>None\<close> when no glob matches and the function goes on.
\<close>

fun ignore_loop :: "string list \<Rightarrow> string \<Rightarrow> bool \<Rightarrow> walk_vars \<Rightarrow> walk_vars option" where
  "ignore_loop [] file isDir v = None"
| "ignore_loop (i # ignore) file isDir v =
     (if Glob i file
      then Some (if isDir then v\<lparr>ignoredDirectories := ignoredDirectories v @ [file]\<rparr> else v)
      else ignore_loop ignore file isDir v)"

text \<open>
  The walk function (lines 97-136). \<open>file[len(dir)+1:]\<close> panics when the index is
  beyond the end of \<open>file\<close>.
\<close>

definition walk_fn :: "string \<Rightarrow> string \<Rightarrow> string list \<Rightarrow> walk_vars \<Rightarrow> visit \<Rightarrow> error + walk_vars" where
  "walk_fn dir prefix' ignore v vis =
     (case vis of (file, isDir, err) \<Rightarrow>
        (case err of
           Some e \<Rightarrow> Inl e
         | None \<Rightarrow>
            (case ignore_loop ignore file isDir v of
               Some v' \<Rightarrow> Inr v'
             | None \<Rightarrow>
                 if isDir then Inr v
                 else if file = dir then Inl (Error (dir @ '' is not a directory''))
                 else if \<exists>i \<in> set (ignoredDirectories v). HasPrefix file i then Inr v
                 else if dir \<noteq> ''.'' \<and> length file < length dir + 1
                 then Inl (Panic ''slice bounds out of range'')
                 else let rel = (if dir \<noteq> ''.'' then drop (length dir + 1) file else file);
                          f = Join prefix' rel
                      in Inr (v\<lparr>files := files v @ [ToSlash f]\<rparr>))))"

text \<open>The walker stops at the first error its function returns.\<close>

fun walk_all :: "(walk_vars \<Rightarrow> visit \<Rightarrow> error + walk_vars) \<Rightarrow> walk_vars \<Rightarrow> visit list \<Rightarrow> error + walk_vars" where
  "walk_all fn v [] = Inr v"
| "walk_all fn v (vis # rest) =
     (case fn v vis of Inl e \<Rightarrow> Inl e | Inr v' \<Rightarrow> walk_all fn v' rest)"

definition DirFiles :: "filesystem \<Rightarrow> string \<Rightarrow> string \<Rightarrow> string list \<Rightarrow> error + string list" where
  "DirFiles fs dir0 prefix' ignore =
     (let dir = Clean dir0
      in case walk_all (walk_fn dir prefix' ignore)
                \<lparr>ignoredDirectories = [], files = []\<rparr> (walk dir (tree_at fs dir)) of
           Inl err \<Rightarrow> Inl err
         | Inr v \<Rightarrow> Inr (files v))"

type_synonym Hash = "string list \<Rightarrow> opener \<Rightarrow> error + string"

definition osOpen :: "filesystem \<Rightarrow> string \<Rightarrow> string \<Rightarrow> opener" where
  "osOpen fs dir prefix' name = os_Open fs (Join dir (TrimPrefix name prefix'))"

definition HashDir :: "filesystem \<Rightarrow> string \<Rightarrow> string \<Rightarrow> Hash \<Rightarrow> string list \<Rightarrow> error + string" where
  "HashDir fs dir prefix' hash ignore =
     (case DirFiles fs dir prefix' ignore of
        Inl err \<Rightarrow> Inl err
      | Inr fls \<Rightarrow> hash fls (osOpen fs dir prefix'))"

text \<open>
  The loop of \<open>HashZip\<close> (lines 155-158): the names in archive order, and the map
  \<open>zfiles\<close>, where a later entry replaces an earlier one of the same name.
\<close>

fun zip_loop :: "zip_File list \<Rightarrow> string list \<times> (string \<rightharpoonup> zip_File) \<Rightarrow> string list \<times> (string \<rightharpoonup> zip_File)" where
  "zip_loop [] acc = acc"
| "zip_loop (file # rest) (fls, zfiles) =
     zip_loop rest (fls @ [Name file], zfiles(Name file \<mapsto> file))"

definition zipOpen :: "(string \<rightharpoonup> zip_File) \<Rightarrow> opener" where
  "zipOpen zfiles name =
     (case zfiles name of
        None \<Rightarrow> Inl (Error (''file '' @ [CHR 0x22] @ name @ [CHR 0x22] @ '' not found in zip''))
      | Some f \<Rightarrow> Open f)"

definition HashZip :: "filesystem \<Rightarrow> string \<Rightarrow> Hash \<Rightarrow> error + string" where
  "HashZip fs zipfile hash =
     (case zip_OpenReader fs zipfile of
        Inl err \<Rightarrow> Inl err
      | Inr z \<Rightarrow>
          (case zip_loop z ([], Map.empty) of
             (fls, zfiles) \<Rightarrow> hash fls (zipOpen zfiles)))"


section \<open>pkg/clients/command.go: Execute\<close>

text \<open>
  \<open>Env\<close> is a slice that the code compares with \<open>nil\<close>: \<open>None\<close> is the nil slice,
  \<open>Some []\<close> an empty one.
\<close>

record CommandConfig =
  Command :: string
  Args :: "string list"
  Env :: "string list option"
  WorkingDirectory :: string
  RunInBackground :: bool
  LogFilePath :: string

text \<open>\<open>gohup.Options\<close>, the argument of \<open>lp.Start\<close>.\<close>

record Options =
  opt_Path :: string
  opt_Args :: "string list"
  opt_Logfile :: string
  opt_Env :: "string list"
  opt_Dir :: string

datatype Status = StatusRunning | StatusStopped | StatusOther

text \<open>
  What \<open>Execute\<close> reads from outside the program: the environment of the process, the
  answers of the gohup library (errors as their messages), and time. Time is counted in
  milliseconds from the call of \<open>Execute\<close>. The goroutine of line 74 reaches
  \<open>lp.Start\<close> after \<open>GoroutineDelay\<close>, and \<open>lp.Start\<close> takes \<open>StartDuration\<close>;
  \<open>lp_QueryStatus pidfile n\<close> is the answer to the \<open>n\<close>-th status query (the queries
  themselves take no time, the goroutine sleeps 200 ms between two of them);
  \<open>lp.Stop\<close> takes \<open>StopDuration\<close>. \<open>TimerFirst\<close> says which of the two threads comes
  first when both act at the same instant: the one that runs \<open>Execute\<close> (the \<open>select\<close>
  with its timer, the reads of \<open>pidfile\<close> and \<open>pid\<close>) or the goroutine.
\<close>

record world =
  Environ :: "string list"
  lp_Start :: "Options \<Rightarrow> int \<times> string \<times> string option"
  GoroutineDelay :: nat
  StartDuration :: nat
  lp_QueryStatus :: "string \<Rightarrow> nat \<Rightarrow> Status \<times> string option"
  StopDuration :: nat
  TimerFirst :: bool

record CommandImpl =
  timeout :: int

text \<open>
  The calls to the gohup library, by either thread, in the order they are made until
  \<open>Execute\<close> returns, and the pid files that \<open>lp.Stop\<close> was called with among them.
\<close>

datatype event = Start Options | QueryStatus string | Stop string

fun stops :: "event list \<Rightarrow> string list" where
  "stops [] = []"
| "stops (Stop pidfile # evs) = pidfile # stops evs"
| "stops (ev # evs) = stops evs"

record execution =
  ret_pid :: int
  ret_err :: "error option"
  returned_at :: nat
  calls :: "event list"

text \<open>Lines 48-63: the options handed to \<open>lp.Start\<close>.\<close>

definition build_options :: "world \<Rightarrow> CommandConfig \<Rightarrow> Options" where
  "build_options w config =
     (let o1 = \<lparr>opt_Path = Command config, opt_Args = Args config,
                opt_Logfile = LogFilePath config, opt_Env = [], opt_Dir = []\<rparr>;
          o2 = o1\<lparr>opt_Env := Environ w\<rparr>;
          o3 = (if Env config \<noteq> None then o2\<lparr>opt_Env := opt_Env o2 @ Args config\<rparr> else o2)
      in if WorkingDirectory config \<noteq> [] then o3\<lparr>opt_Dir := WorkingDirectory config\<rparr> else o3)"

text \<open>
  \<open>acts_first w t g\<close>: what the thread of \<open>Execute\<close> does at instant \<open>t\<close> comes before
  what the goroutine does at instant \<open>g\<close>. The variables \<open>pid\<close> and \<open>pidfile\<close> of lines
  70-71 are shared by the two threads without any synchronisation: a read by \<open>Execute\<close>
  sees the goroutine's assignment of line 86 when the assignment comes first in this order.
\<close>

definition acts_first :: "world \<Rightarrow> nat \<Rightarrow> nat \<Rightarrow> bool" where
  "acts_first w t g = (t < g \<or> (t = g \<and> TimerFirst w))"

text \<open>
  \<open>time.After(c.timeout)\<close> (line 69) delivers on its channel once the duration has
  passed, at once when the duration is zero or negative. \<open>timer_fires w deadline now\<close>:
  the \<open>select\<close> of line 110 takes the timer's case before the goroutine can send at
  instant \<open>now\<close>.
\<close>

definition timer_fires :: "world \<Rightarrow> nat \<Rightarrow> nat \<Rightarrow> bool" where
  "timer_fires w deadline now = acts_first w deadline now"

text \<open>
  The answer to a status query after which the polling loop goes on: no error, and a
  status other than stopped.
\<close>

definition still_running :: "Status \<times> string option \<Rightarrow> bool" where
  "still_running answer = (snd answer = None \<and> fst answer \<noteq> StatusStopped)"

text \<open>
  Once the timer has fired, \<open>Execute\<close> is inside \<open>lp.Stop\<close> until the instant \<open>ret\<close>.
  The goroutine is a thread of its own and goes on with its loop meanwhile: it makes the
  status queries that fall before \<open>ret\<close>, until an answer ends the loop (the goroutine is
  then blocked for good in a send that nobody receives).
\<close>

function late_polls :: "world \<Rightarrow> string \<Rightarrow> nat \<Rightarrow> nat \<Rightarrow> nat \<Rightarrow> event list" where
  "late_polls w pidfile ret now n =
     (if acts_first w ret now then []
      else QueryStatus pidfile
             # (if still_running (lp_QueryStatus w pidfile n)
                then late_polls w pidfile ret (now + 200) (n + 1)
                else []))"
  by pat_completeness auto
termination
  by (relation "measure (\<lambda>(w, pidfile, ret, now, n). ret + 1 - now)")
     (auto simp: acts_first_def)

text \<open>
  The polling loop of the goroutine (lines 93-104) against the timer; \<open>lp.Start\<close> has
  returned and \<open>pid\<close> and \<open>pidfile\<close> are assigned. The channel \<open>doneCh\<close> is unbuffered and
  \<open>Execute\<close> receives from it once, so the first send of the goroutine is the one
  \<open>Execute\<close> returns; \<open>err\<close> is the variable of line 72, which the loop's own \<open>err\<close>
  shadows. When the timer fires, \<open>Execute\<close> calls \<open>lp.Stop(pidfile)\<close> (line 113) and,
  after that has returned, reads \<open>pid\<close> (line 114).
\<close>

function poll :: "world \<Rightarrow> nat \<Rightarrow> int \<Rightarrow> string \<Rightarrow> error option \<Rightarrow> nat \<Rightarrow> nat \<Rightarrow> event list \<Rightarrow> execution" where
  "poll w deadline pid pidfile err now n tr =
     (if timer_fires w deadline now
      then \<lparr>ret_pid = pid, ret_err = Some ErrorCommandTimeout,
            returned_at = deadline + StopDuration w,
            calls = tr @ [Stop pidfile]
                      @ late_polls w pidfile (deadline + StopDuration w) now n\<rparr>
      else case lp_QueryStatus w pidfile n of
             (s, Some msg) \<Rightarrow>
               \<lparr>ret_pid = pid, ret_err = Some (Error msg), returned_at = now,
                calls = tr @ [QueryStatus pidfile]\<rparr>
           | (s, None) \<Rightarrow>
               if s = StatusStopped
               then \<lparr>ret_pid = pid, ret_err = err, returned_at = now,
                     calls = tr @ [QueryStatus pidfile]\<rparr>
               else poll w deadline pid pidfile err (now + 200) (n + 1)
                      (tr @ [QueryStatus pidfile]))"
  by pat_completeness auto
termination
  by (relation "measure (\<lambda>(w, deadline, pid, pidfile, err, now, n, tr). deadline + 200 - now)")
     (auto simp: timer_fires_def acts_first_def)

text \<open>
  \<open>Execute\<close> (lines 46-118) returns what the \<open>select\<close> of lines 110-117 receives
  first. The goroutine calls \<open>lp.Start\<close> at the instant \<open>called\<close> and assigns \<open>pid\<close>,
  \<open>pidfile\<close> and \<open>err\<close> when it returns, at the instant \<open>started\<close>.

  When the timer fires before that, \<open>Execute\<close> reads the still empty \<open>pidfile\<close> and
  calls \<open>lp.Stop\<close> on it (line 113); when \<open>lp.Stop\<close> has returned, at the instant
  \<open>ret\<close>, it reads \<open>pid\<close> (line 114), which is 0 unless the goroutine's assignment has
  come first, and returns it with \<open>ErrorCommandTimeout\<close>. The goroutine's call of
  \<open>lp.Start\<close> is before the call of \<open>lp.Stop\<close>, after it, or not made yet when
  \<open>Execute\<close> returns, as the instants say; its status queries before \<open>ret\<close> follow.

  Otherwise the goroutine sends first: the error of \<open>lp.Start\<close> with pid 0 (line 88),
  the started pid as soon as \<open>lp.Start\<close> has returned when \<open>RunInBackground\<close> is set
  (line 107), or the outcome of the polling loop.
\<close>

definition Execute :: "CommandImpl \<Rightarrow> world \<Rightarrow> CommandConfig \<Rightarrow> execution" where
  "Execute c w config =
     (let o' = build_options w config;
          deadline = nat (timeout c);
          called = GoroutineDelay w;
          started = GoroutineDelay w + StartDuration w;
          ret = deadline + StopDuration w
      in case lp_Start w o' of
           (pid, pidfile, err) \<Rightarrow>
             if timer_fires w deadline started
             then \<lparr>ret_pid = (if acts_first w ret started then 0 else pid),
                   ret_err = Some ErrorCommandTimeout,
                   returned_at = ret,
                   calls = (if acts_first w deadline called
                            then Stop [] # (if acts_first w ret called then [] else [Start o'])
                            else [Start o', Stop []])
                           @ (if err = None \<and> \<not> RunInBackground config
                              then late_polls w pidfile ret started 0 else [])\<rparr>
             else (case err of
                     Some msg \<Rightarrow>
                       \<lparr>ret_pid = 0, ret_err = Some (Error msg),
                        returned_at = started, calls = [Start o']\<rparr>
                   | None \<Rightarrow>
                       if \<not> RunInBackground config
                       then poll w deadline pid pidfile None started 0 [Start o']
                       else \<lparr>ret_pid = pid, ret_err = None,
                             returned_at = started, calls = [Start o']\<rparr>))"


section \<open>Resources and the loaded state\<close>

text \<open>
  \<open>types.ResourceMetadata\<close> is embedded in every resource; a Go struct that embeds it is
  a record that extends it. The declaration of \<open>Exec\<close> is not among the sources: the
  record has the fields that \<open>provider.go\<close> and \<open>resource_test.go\<close> read and write.
\<close>

record ResourceMetadata =
  ID :: string
  ResourceName :: string
  ResourceType :: string
  Module :: string
  ResourceFile :: string

record RandomUUID = ResourceMetadata +
  Value :: string

record NomadJob = ResourceMetadata +
  Cluster :: string
  Paths :: "string list"
  JobChecksums :: "string list"

record Image =
  ImageName :: string
  Username :: string
  Password :: string

record Target =
  ContainerName :: string

record Volume =
  Source :: string
  Destination :: string

record NetworkAttachment =
  NetworkName :: string

record Exec = ResourceMetadata +
  Image :: "Image option"
  Target :: "Target option"
  Script :: string
  Networks :: "NetworkAttachment list"
  Volumes :: "Volume list"
  Daemon :: bool
  PID :: int

text \<open>
  The state document is the ordered collection of the resource records of the last run.
  \<open>LoadState\<close> delivers it or an error.
\<close>

datatype resource = RandomUUID_res RandomUUID | NomadJob_res NomadJob | Exec_res Exec

type_synonym state = "resource list"

fun resource_ID :: "resource \<Rightarrow> string" where
  "resource_ID (RandomUUID_res r) = ID r"
| "resource_ID (NomadJob_res r) = ID r"
| "resource_ID (Exec_res r) = ID r"

text \<open>
  Modelled from the spec: \<open>FindResource\<close> of the state store, which is not among the
  sources. It looks a record up by its id and reports "not found" (\<open>None\<close>, the \<open>nil\<close>
  resource that \<open>Process\<close> tests for) when the state holds no record of that id.
\<close>

definition FindResource :: "state \<Rightarrow> string \<Rightarrow> resource option" where
  "FindResource cfg rid = find (\<lambda>r. resource_ID r = rid) cfg"

section \<open>The Process hooks\<close>

text \<open>
  \<open>RandomUUID.Process\<close> (src/unnamed/part_000, lines 19-33). The type assertion
  \<open>r.(*RandomUUID)\<close> panics when the record found is of another type. The hook has no
  other way to fail: \<open>Inr\<close> is the resource after the hook has returned \<open>nil\<close>.
\<close>

definition RandomUUID_Process :: "error + state \<Rightarrow> RandomUUID \<Rightarrow> error + RandomUUID" where
  "RandomUUID_Process loaded c =
     (case loaded of
        Inl err \<Rightarrow> Inr c
      | Inr cfg \<Rightarrow>
          (case FindResource cfg (ID c) of
             None \<Rightarrow> Inr c
           | Some r \<Rightarrow>
               (case r of
                  RandomUUID_res st \<Rightarrow> Inr (c\<lparr>Value := Value st\<rparr>)
                | _ \<Rightarrow> Inl (Panic ''interface conversion: resource is not *RandomUUID''))))"

text \<open>
  \<open>NomadJob.Process\<close> (hash.go, lines 195-212). \<open>ensureAbsolute\<close> is not among the
  sources and is a parameter.
\<close>

definition NomadJob_Process ::
  "(string \<Rightarrow> string \<Rightarrow> string) \<Rightarrow> error + state \<Rightarrow> NomadJob \<Rightarrow> error + NomadJob" where
  "NomadJob_Process ensureAbsolute loaded n =
     (let n1 = n\<lparr>Paths := map (\<lambda>p. ensureAbsolute p (ResourceFile n)) (Paths n)\<rparr>
      in case loaded of
           Inl err \<Rightarrow> Inr n1
         | Inr cfg \<Rightarrow>
             (case FindResource cfg (ID n1) of
                None \<Rightarrow> Inr n1
              | Some r \<Rightarrow>
                  (case r of
                     NomadJob_res kstate \<Rightarrow> Inr (n1\<lparr>JobChecksums := JobChecksums kstate\<rparr>)
                   | _ \<Rightarrow> Inl (Panic ''interface conversion: resource is not *NomadJob''))))"

text \<open>
  Modelled from the spec: \<open>Exec.Process\<close>, whose file is not among the sources (its
  tests in \<open>resource_test.go\<close> are). By section 4.4 the hook rewrites relative volume
  paths to absolute ones, rejects a configuration that combines a local execution target
  with networks or volumes by failing fast, and rehydrates the pid from the state. The
  tests fix the cases: a volume source becomes absolute when an image is given, a local
  exec with volumes or with networks is an error, and the pid of the stored record is
  copied.
\<close>

definition Exec_Process ::
  "(string \<Rightarrow> string \<Rightarrow> string) \<Rightarrow> error + state \<Rightarrow> Exec \<Rightarrow> error + Exec" where
  "Exec_Process ensureAbsolute loaded e =
     (if Image e = None \<and> Target e = None \<and> (Networks e \<noteq> [] \<or> Volumes e \<noteq> [])
      then Inl (Error ''unable to create local exec with networks or volumes'')
      else
        let e1 = (if Image e \<noteq> None \<or> Target e \<noteq> None
                  then e\<lparr>Volumes := map (\<lambda>v. v\<lparr>Source := ensureAbsolute (Source v) (ResourceFile e)\<rparr>)
                                        (Volumes e)\<rparr>
                  else e)
        in case loaded of
             Inl err \<Rightarrow> Inr e1
           | Inr cfg \<Rightarrow>
               (case FindResource cfg (ID e1) of
                  None \<Rightarrow> Inr e1
                | Some r \<Rightarrow>
                    (case r of
                       Exec_res kstate \<Rightarrow> Inr (e1\<lparr>PID := PID kstate\<rparr>)
                     | _ \<Rightarrow> Inl (Panic ''interface conversion: resource is not *Exec''))))"

section \<open>pkg/config/resources/exec/provider.go: Destroy and Changed\<close>

text \<open>
  The provider holds the resource and a logger; the log is the list of the entries
  written. The command client is an interface: its \<open>Kill\<close> is a parameter, returning the
  message of its error.
\<close>

datatype log_entry = Debug string | Info string | Warn string

record Provider =
  config :: Exec
  log :: "log_entry list"

text \<open>
  \<open>Destroy\<close> (lines 74-90) returns its error, the provider with the log written, and the
  pids \<open>Kill\<close> was called with.
\<close>

definition Destroy :: "(int \<Rightarrow> string option) \<Rightarrow> Provider \<Rightarrow> error option \<times> Provider \<times> int list" where
  "Destroy Kill p =
     (if Daemon (config p) \<and> Image (config p) = None \<and> Target (config p) = None
      then
        if PID (config p) < 1
        then (None, p\<lparr>log := log p @ [Warn ''unable to stop local process, no pid'']\<rparr>, [])
        else (case Kill (PID (config p)) of
                Some msg \<Rightarrow>
                  (None, p\<lparr>log := log p @ [Warn ''error cleaning up daemonized process'']\<rparr>,
                   [PID (config p)])
              | None \<Rightarrow> (None, p, [PID (config p)]))
      else (None, p, []))"

text \<open>\<open>Changed\<close> (lines 102-106) returns its two results and the provider with the log written.\<close>

definition Changed :: "Provider \<Rightarrow> (bool \<times> error option) \<times> Provider" where
  "Changed p = ((False, None), p\<lparr>log := log p @ [Debug ''checking changes'']\<rparr>)"

section \<open>Concrete inputs\<close>

text \<open>
  A stand-in for SHA-256 on concrete inputs (the theorems hold for every digest function),
  and a directory \<open>mod\<close> with two files next to two archives of the same files, listed in
  the other order; the archives differ in methods, timestamps and attributes only.
\<close>

definition sha_toy :: "string \<Rightarrow> string" where
  "sha_toy bs = rev bs"

definition fs_ab :: filesystem where
  "fs_ab = \<lparr>tree_at = (\<lambda>p. if p = ''mod'' then Dir [(''a.txt'', File), (''b.txt'', File)]
                            else Unreadable ''no such file or directory''),
           os_Open = (\<lambda>p. if p = ''mod/a.txt'' then Inr (Inr ''alpha'')
                           else if p = ''mod/b.txt'' then Inr (Inr ''beta'')
                           else Inl (Error ''no such file or directory'')),
           zip_OpenReader = (\<lambda>p. if p = ''mod.zip''
               then Inr [\<lparr>Name = ''v1/b.txt'', Method = 8, Modified = 1700000000,
                          ExternalAttrs = 0, Open = Inr (Inr ''beta'')\<rparr>,
                         \<lparr>Name = ''v1/a.txt'', Method = 0, Modified = 3,
                          ExternalAttrs = 420, Open = Inr (Inr ''alpha'')\<rparr>]
               else if p = ''rebuilt.zip''
               then Inr [\<lparr>Name = ''v1/b.txt'', Method = 0, Modified = 0,
                          ExternalAttrs = 0, Open = Inr (Inr ''beta'')\<rparr>,
                         \<lparr>Name = ''v1/a.txt'', Method = 8, Modified = 1700000555,
                          ExternalAttrs = 33188, Open = Inr (Inr ''alpha'')\<rparr>]
               else Inl (Error ''no such file or directory''))\<rparr>"

text \<open>The same directory, enumerated in the other order.\<close>

definition fs_ba :: filesystem where
  "fs_ba = fs_ab\<lparr>tree_at := (\<lambda>p. if p = ''mod'' then Dir [(''b.txt'', File), (''a.txt'', File)]
                            else Unreadable ''no such file or directory'')\<rparr>"

text \<open>
  A directory \<open>t\<close> with the subdirectories \<open>d\<close> and \<open>d2\<close> and a file, listed by the
  file system in two different orders.
\<close>

definition fs_t1 :: filesystem where
  "fs_t1 = \<lparr>tree_at = (\<lambda>p. if p = ''t''
                             then Dir [(''d'', Dir [(''x.txt'', File)]),
                                       (''d2'', Dir [(''c.txt'', File)]),
                                       (''e.txt'', File)]
                             else Unreadable ''no such file or directory''),
            os_Open = (\<lambda>p. Inr (Inr (''content of '' @ p))),
            zip_OpenReader = (\<lambda>p. Inl (Error ''no such file or directory''))\<rparr>"

definition fs_t2 :: filesystem where
  "fs_t2 = fs_t1\<lparr>tree_at := (\<lambda>p. if p = ''t''
                             then Dir [(''e.txt'', File),
                                       (''d2'', Dir [(''c.txt'', File)]),
                                       (''d'', Dir [(''x.txt'', File)])]
                             else Unreadable ''no such file or directory'')\<rparr>"

text \<open>
  A directory with a file whose name starts with a dot and a file of the same name without
  the dot, and an archive of the two files with their contents.
\<close>

definition fs_hidden :: filesystem where
  "fs_hidden = \<lparr>tree_at = (\<lambda>p. if p = ''mod'' then Dir [(''.hidden'', File), (''hidden'', File)]
                                 else Unreadable ''no such file or directory''),
                os_Open = (\<lambda>p. if p = ''mod/.hidden'' then Inr (Inr ''secret'')
                                else if p = ''mod/hidden'' then Inr (Inr ''public'')
                                else Inl (Error ''no such file or directory'')),
                zip_OpenReader = (\<lambda>p. if p = ''mod.zip''
                    then Inr [\<lparr>Name = ''.hidden'', Method = 8, Modified = 1700000000,
                               ExternalAttrs = 0, Open = Inr (Inr ''secret'')\<rparr>,
                              \<lparr>Name = ''hidden'', Method = 8, Modified = 1700000000,
                               ExternalAttrs = 0, Open = Inr (Inr ''public'')\<rparr>]
                    else Inl (Error ''no such file or directory''))\<rparr>"

text \<open>
  A memory with two backing arrays; the caller's slice covers the second and third name
  of the second array.
\<close>

definition mem0 :: memory where
  "mem0 = [[''keep''], [''zeta'', ''b.txt'', ''a.txt'', ''omega'']]"

definition caller_files :: slice where
  "caller_files = \<lparr>array = 1, offset = 1, len = 2\<rparr>"

definition open_name :: opener where
  "open_name name = Inr (Inr (''content of '' @ name))"

text \<open>
  A command with one argument and one configured environment entry, in a process whose
  environment holds \<open>PATH\<close>. The goroutine calls the library after 1 ms, and the library
  starts the command as pid 42 within 4 ms more; the process runs for three status queries
  and is then stopped. Stopping takes 2 ms. In \<open>world_slow_stop\<close> it takes 10 ms.
\<close>

definition world0 :: world where
  "world0 = \<lparr>Environ = [''PATH=/bin''],
             lp_Start = (\<lambda>opts. (42, ''/tmp/42.pid'', None)),
             GoroutineDelay = 1,
             StartDuration = 4,
             lp_QueryStatus = (\<lambda>pidfile n. if n < 3 then (StatusRunning, None)
                                            else (StatusStopped, None)),
             StopDuration = 2,
             TimerFirst = False\<rparr>"

definition world_slow_stop :: world where
  "world_slow_stop = world0\<lparr>StopDuration := 10\<rparr>"

definition config0 :: CommandConfig where
  "config0 = \<lparr>Command = ''/bin/sleep'', Args = [''1''], Env = Some [''MODE=test''],
              WorkingDirectory = [], RunInBackground = False, LogFilePath = ''/tmp/sleep.log''\<rparr>"

definition config_bg :: CommandConfig where
  "config_bg = config0\<lparr>RunInBackground := True\<rparr>"

text \<open>
  An exec resource that never completed \<open>Create\<close> (pid 0), as a local script that is not
  a daemon and as a local daemon, and a daemon with a recorded pid.
\<close>

definition exec0 :: Exec where
  "exec0 = \<lparr>ID = ''resource.exec.test'', ResourceName = ''test'', ResourceType = ''exec'',
            Module = [], ResourceFile = ''./main.hcl'',
            Image = None, Target = None, Script = ''echo hello'', Networks = [], Volumes = [],
            Daemon = False, PID = 0\<rparr>"

definition provider0 :: Provider where
  "provider0 = \<lparr>config = exec0, log = []\<rparr>"

definition provider_daemon :: Provider where
  "provider_daemon = \<lparr>config = exec0\<lparr>Daemon := True\<rparr>, log = []\<rparr>"

definition provider_running :: Provider where
  "provider_running = \<lparr>config = exec0\<lparr>Daemon := True, PID := 42\<rparr>, log = []\<rparr>"

definition Kill_fails :: "int \<Rightarrow> string option" where
  "Kill_fails pid = Some ''os: process already finished''"

text \<open>
  The working directory \<open>.\<close> with a file and a subdirectory that holds a file.
\<close>

definition fs_dot :: filesystem where
  "fs_dot = \<lparr>tree_at = (\<lambda>p. if p = ''.''
                              then Dir [(''a.txt'', File), (''d'', Dir [(''b.txt'', File)])]
                              else Unreadable ''no such file or directory''),
             os_Open = (\<lambda>p. Inl (Error ''no such file or directory'')),
             zip_OpenReader = (\<lambda>p. Inl (Error ''no such file or directory''))\<rparr>"

text \<open>
  The state of \<open>TestExecSetsOutputsFromState\<close>, with a record of a generated value and of
  a job next to the exec record, and in-memory resources of the same ids before their
  hooks run. \<open>exec_volumes\<close> is the local exec with a volume of
  \<open>TestExecLocalWithVolumesReturnsError\<close>.
\<close>

definition uuid0 :: RandomUUID where
  "uuid0 = \<lparr>ID = ''resource.random_uuid.token'', ResourceName = ''token'',
            ResourceType = ''random_uuid'', Module = [], ResourceFile = ''./main.hcl'',
            Value = []\<rparr>"

definition job0 :: NomadJob where
  "job0 = \<lparr>ID = ''resource.nomad_job.web'', ResourceName = ''web'',
           ResourceType = ''nomad_job'', Module = [], ResourceFile = ''./main.hcl'',
           Cluster = ''dev'', Paths = [''./jobs/web.hcl''], JobChecksums = []\<rparr>"

definition state0 :: state where
  "state0 = [Exec_res (exec0\<lparr>PID := 42\<rparr>),
             RandomUUID_res (uuid0\<lparr>Value := ''0b3c1d9e-5f1a-4c1e-9d53-2f0c6a1b7e11''\<rparr>),
             NomadJob_res (job0\<lparr>JobChecksums := [''h1:abc='']\<rparr>)]"

definition exec_volumes :: Exec where
  "exec_volumes = exec0\<lparr>ID := ''resource.exec.local'', ResourceFile := ''./'',
                         Volumes := [\<lparr>Source = ''./'', Destination = ''./''\<rparr>]\<rparr>"

definition absolute_in_work :: "string \<Rightarrow> string \<Rightarrow> string" where
  "absolute_in_work path file = (if HasPrefix path ''/'' then path else ''/work/'' @ path)"

section \<open>The walk and the order of directory entries\<close>

lemma insort_key_fst_map:
  "insort_key fst (name, f t) (map (\<lambda>(name, t). (name, f t)) es)
     = map (\<lambda>(name, t). (name, f t)) (insort_key fst (name, t) es)"
  by (induction es) auto

lemma sort_key_fst_map:
  "sort_key fst (map (\<lambda>(name, t). (name, f t)) es)
     = map (\<lambda>(name, t). (name, f t)) (sort_key fst es)"
proof (induction es)
  case Nil
  show ?case by simp
next
  case (Cons e es)
  obtain name t where e: "e = (name, t)" by (cases e)
  show ?case
    using Cons.IH by (simp add: e insort_key_fst_map)
qed

lemma sort_key_twice: "sort_key f (sort_key f es) = sort_key f es"
  by (rule sort_key_id_if_sorted) simp

lemma walk_canon: "walk path (canon t) = walk path t"
proof (induction path t rule: walk.induct)
  case (1 path)
  show ?case by simp
next
  case (2 path msg)
  show ?case by simp
next
  case (3 path entries)
  have "map (\<lambda>(name, t). walk (Join path name) t)
          (map (\<lambda>(name, t). (name, canon t)) (sort_key fst entries))
        = map (\<lambda>(name, t). walk (Join path name) t) (sort_key fst entries)"
    unfolding map_map
  proof (rule map_cong [OF refl])
    fix x assume x: "x \<in> set (sort_key fst entries)"
    obtain name t where nt: "(name, t) = x" by (cases x) simp
    have "walk (Join path name) (canon t) = walk (Join path name) t"
      using x nt by (rule "3.IH")
    then show "((\<lambda>(name, t). walk (Join path name) t) \<circ> (\<lambda>(name, t). (name, canon t))) x
                 = (case x of (name, t) \<Rightarrow> walk (Join path name) t)"
      using nt by auto
  qed
  then show ?case
    by (simp only: canon.simps walk.simps sort_key_fst_map sort_key_twice)
qed

lemma walk_same_canon: "canon t1 = canon t2 \<Longrightarrow> walk path t1 = walk path t2"
  using walk_canon [of path t1] walk_canon [of path t2] by simp

lemma filter_distinct_key:
  "distinct (map f es) \<Longrightarrow> e \<in> set es \<Longrightarrow> filter (\<lambda>x. f e = f x) es = [e]"
proof (induction es)
  case Nil
  then show ?case by simp
next
  case (Cons a es)
  show ?case
  proof (cases "e = a")
    case True
    have "filter (\<lambda>x. f a = f x) es = []"
      using Cons.prems(1) by (auto simp: filter_empty_conv)
    with True show ?thesis by simp
  next
    case False
    then have "e \<in> set es" using Cons.prems(2) by simp
    moreover have "f a \<notin> f ` set es" using Cons.prems(1) by simp
    then have "f e \<noteq> f a" using \<open>e \<in> set es\<close> by (metis imageI)
    ultimately show ?thesis using Cons by simp
  qed
qed

lemma sort_key_permuted:
  assumes "mset es = mset es'" and "distinct (map f es)"
  shows "sort_key f es = sort_key f es'"
proof (rule properties_for_sort_key)
  have s: "set es' = set es"
    using assms(1) by (metis set_mset_mset)
  have d: "distinct (map f es')"
    using assms by (metis distinct_map mset_eq_imp_distinct_iff mset_map s inj_on_def)
  show "mset (sort_key f es') = mset es"
    using assms(1) by simp
  show "\<And>k. k \<in> set (sort_key f es') \<Longrightarrow>
          filter (\<lambda>x. f k = f x) (sort_key f es') = filter (\<lambda>x. f k = f x) es"
  proof -
    fix k assume "k \<in> set (sort_key f es')"
    then have k: "k \<in> set es'" by simp
    have "distinct (map f (sort_key f es'))"
      using d by (metis mset_eq_imp_distinct_iff mset_map mset_sort)
    then have "filter (\<lambda>x. f k = f x) (sort_key f es') = [k]"
      by (rule filter_distinct_key) (simp add: k)
    moreover have "filter (\<lambda>x. f k = f x) es = [k]"
      using assms(2) k s by (intro filter_distinct_key) simp_all
    ultimately show "filter (\<lambda>x. f k = f x) (sort_key f es') = filter (\<lambda>x. f k = f x) es"
      by simp
  qed
  show "sorted (map f (sort_key f es'))"
    by simp
qed

lemma canon_permuted:
  assumes "mset es = mset es'" and "distinct (map fst es)"
  shows "canon (Dir es) = canon (Dir es')"
proof -
  have m: "mset (map (\<lambda>(name, t). (name, canon t)) es)
             = mset (map (\<lambda>(name, t). (name, canon t)) es')"
    using assms(1) by (metis mset_map)
  have "map fst (map (\<lambda>(name, t). (name, canon t)) es) = map fst es"
    by (simp add: case_prod_beta)
  then have d: "distinct (map fst (map (\<lambda>(name, t). (name, canon t)) es))"
    using assms(2) by (simp only:)
  show ?thesis
    by (simp only: canon.simps sort_key_permuted [OF m d])
qed

section \<open>Properties of Hash1\<close>

lemma sort_Strings_mset: "mset xs = mset ys \<Longrightarrow> sort_Strings xs = sort_Strings ys"
  unfolding sort_Strings_def by (simp add: properties_for_sort)

lemma set_sort_Strings: "set (sort_Strings xs) = set xs"
  by (simp add: sort_Strings_def)

lemma hash_loop_cong_open:
  "(\<And>f. f \<in> set fls \<Longrightarrow> open1 f = open2 f) \<Longrightarrow>
   hash_loop sha open1 fls h = hash_loop sha open2 fls h"
proof (induction fls arbitrary: h)
  case Nil
  show ?case by simp
next
  case (Cons a fls)
  have a: "open1 a = open2 a" using Cons.prems by simp
  have r: "\<And>h. hash_loop sha open1 fls h = hash_loop sha open2 fls h"
    using Cons.IH Cons.prems by simp
  show ?case by (simp add: a r split: sum.splits)
qed

lemma Hash1_mset: "mset xs = mset ys \<Longrightarrow> Hash1 sha xs opn = Hash1 sha ys opn"
  using sort_Strings_mset [of xs ys] by (simp add: Hash1_def)

lemma Hash1_cong_open:
  assumes "\<And>f. f \<in> set fls \<Longrightarrow> open1 f = open2 f"
  shows "Hash1 sha fls open1 = Hash1 sha fls open2"
proof -
  have "hash_loop sha open1 (sort_Strings fls) [] = hash_loop sha open2 (sort_Strings fls) []"
    by (rule hash_loop_cong_open) (simp add: assms set_sort_Strings)
  then show ?thesis by (simp add: Hash1_def)
qed

lemma less_eq_string_Cons:
  "(c # cs \<le> d # ds) = (of_char c < (of_char d :: nat) \<or> (c = d \<and> cs \<le> ds))"
  by (auto simp: less_char_def less_eq_char_def)

lemma entries_ab_sorted:
  "sort_key fst [(''b.txt'', File), (''a.txt'', File)] = [(''a.txt'', File), (''b.txt'', File)]"
  "sort_key fst [(''a.txt'', File), (''b.txt'', File)] = [(''a.txt'', File), (''b.txt'', File)]"
  by (simp_all add: less_eq_string_Cons)

lemma Join_mod:
  "Join ''mod'' ''a.txt'' = ''mod/a.txt''" "Join ''mod'' ''b.txt'' = ''mod/b.txt''"
  by (simp_all add: Join_def Clean_def Separator_def)

lemma walk_fs_ab:
  "walk ''mod'' (tree_at fs_ab ''mod'')
     = [(''mod'', True, None), (''mod/a.txt'', False, None), (''mod/b.txt'', False, None)]"
  by (simp add: fs_ab_def entries_ab_sorted Join_mod)

lemma Clean_mod: "Clean ''mod'' = ''mod''"
  by (simp add: Clean_def Separator_def)

lemma DirFiles_fs_ab: "DirFiles fs_ab ''mod'' ''v1'' [] = Inr [''v1/a.txt'', ''v1/b.txt'']"
  by (simp add: DirFiles_def Clean_mod walk_fs_ab walk_fn_def HasPrefix_def Join_def Clean_def
      Separator_def ToSlash_def)

lemma DirFiles_same_canon:
  assumes "canon (tree_at fs1 (Clean dir)) = canon (tree_at fs2 (Clean dir))"
  shows "DirFiles fs1 dir prefix' ignore = DirFiles fs2 dir prefix' ignore"
proof -
  have "walk (Clean dir) (tree_at fs1 (Clean dir)) = walk (Clean dir) (tree_at fs2 (Clean dir))"
    using assms by (rule walk_same_canon)
  then show ?thesis by (simp add: DirFiles_def)
qed

lemma HashDir_same_canon:
  assumes "canon (tree_at fs1 (Clean dir)) = canon (tree_at fs2 (Clean dir))"
    and "os_Open fs1 = os_Open fs2"
  shows "HashDir fs1 dir prefix' hash ignore = HashDir fs2 dir prefix' hash ignore"
proof -
  have o: "osOpen fs1 dir prefix' = osOpen fs2 dir prefix'"
    using assms(2) by (simp add: osOpen_def fun_eq_iff)
  have d: "DirFiles fs1 dir prefix' ignore = DirFiles fs2 dir prefix' ignore"
    using assms(1) by (rule DirFiles_same_canon)
  show ?thesis
    unfolding HashDir_def o d by (rule refl)
qed

text \<open>
  C5. \<open>Hash1\<close> returns the same result, digest or error, for any two lists of file names
  that are permutations of each other, with the same \<open>open\<close>. \<open>HashDir\<close> returns the same
  result on two file systems that hold the same tree below the directory and differ in the
  order in which they list the entries of its directories (the two trees have the same
  canonical form), also with ignore globs.
\<close>

theorem Hash1_permutation_invariant:
  "(mset files1 = mset files2 \<longrightarrow>
      Hash1 sha256 files1 open' = Hash1 sha256 files2 open') \<and>
   (canon (tree_at fs1 (Clean dir)) = canon (tree_at fs2 (Clean dir)) \<and>
    os_Open fs1 = os_Open fs2 \<longrightarrow>
      HashDir fs1 dir prefix' (Hash1 sha256) ignore
        = HashDir fs2 dir prefix' (Hash1 sha256) ignore)"
  using Hash1_mset [of files1 files2 sha256 open']
    HashDir_same_canon [of fs1 dir fs2 prefix' "Hash1 sha256" ignore]
  by blast

lemma Clean_t: "Clean ''t'' = ''t''"
  by (simp add: Clean_def Separator_def)

theorem Hash1_permutation_invariant_witness:
  "Hash1 sha_toy [''v1/a.txt'', ''v1/b.txt''] (osOpen fs_ab ''mod'' ''v1'')
     = Hash1 sha_toy [''v1/b.txt'', ''v1/a.txt''] (osOpen fs_ab ''mod'' ''v1'') \<and>
   HashDir fs_ab ''mod'' ''v1'' (Hash1 sha_toy) [] = HashDir fs_ba ''mod'' ''v1'' (Hash1 sha_toy) [] \<and>
   HashDir fs_t1 ''t'' ''v1'' (Hash1 sha_toy) [''t/d'']
     = HashDir fs_t2 ''t'' ''v1'' (Hash1 sha_toy) [''t/d'']"
proof -
  have m: "mset [''v1/a.txt'', ''v1/b.txt''] = mset [''v1/b.txt'', ''v1/a.txt'']"
    by simp
  have o: "os_Open fs_ab = os_Open fs_ba" "os_Open fs_t1 = os_Open fs_t2"
    by (simp_all add: fs_ba_def fs_t2_def)
  have "canon (Dir [(''a.txt'', File), (''b.txt'', File)])
          = canon (Dir [(''b.txt'', File), (''a.txt'', File)])"
    by (rule canon_permuted) simp_all
  then have c: "canon (tree_at fs_ab (Clean ''mod'')) = canon (tree_at fs_ba (Clean ''mod''))"
    by (simp add: Clean_mod fs_ab_def fs_ba_def)
  have "canon (Dir [(''d'', Dir [(''x.txt'', File)]), (''d2'', Dir [(''c.txt'', File)]),
                    (''e.txt'', File)])
          = canon (Dir [(''e.txt'', File), (''d2'', Dir [(''c.txt'', File)]),
                        (''d'', Dir [(''x.txt'', File)])])"
    by (rule canon_permuted) simp_all
  then have c': "canon (tree_at fs_t1 (Clean ''t'')) = canon (tree_at fs_t2 (Clean ''t''))"
    by (simp add: Clean_t fs_t1_def fs_t2_def)
  have 1: "Hash1 sha_toy [''v1/a.txt'', ''v1/b.txt''] (osOpen fs_ab ''mod'' ''v1'')
             = Hash1 sha_toy [''v1/b.txt'', ''v1/a.txt''] (osOpen fs_ab ''mod'' ''v1'')"
    using Hash1_permutation_invariant
      [of "[''v1/a.txt'', ''v1/b.txt'']" "[''v1/b.txt'', ''v1/a.txt'']" sha_toy
          "osOpen fs_ab ''mod'' ''v1''"] m
    by blast
  have 2: "HashDir fs_ab ''mod'' ''v1'' (Hash1 sha_toy) []
             = HashDir fs_ba ''mod'' ''v1'' (Hash1 sha_toy) []"
    using Hash1_permutation_invariant
      [where ?fs1.0 = fs_ab and ?fs2.0 = fs_ba and dir = "''mod''" and ?sha256.0 = sha_toy] c o(1)
    by blast
  have 3: "HashDir fs_t1 ''t'' ''v1'' (Hash1 sha_toy) [''t/d'']
             = HashDir fs_t2 ''t'' ''v1'' (Hash1 sha_toy) [''t/d'']"
    using Hash1_permutation_invariant
      [where ?fs1.0 = fs_t1 and ?fs2.0 = fs_t2 and dir = "''t''" and ?sha256.0 = sha_toy] c' o(2)
    by blast
  show ?thesis using 1 2 3 by simp
qed

lemma Hash1_mem_memory:
  "snd (Hash1_mem sha256 m fls open') =
     (if read_slice m fls = [] then m else m @ [sort_Strings (read_slice m fls)])"
  by (simp add: Hash1_mem_def append_nil_def sort_Strings_mem_def write_slice_def
      read_slice_def nil_slice_def sort_Strings_def Let_def)

lemma Hash1_mem_result:
  "fst (Hash1_mem sha256 m fls open') = Hash1 sha256 (read_slice m fls) open'"
  by (simp add: Hash1_mem_def Hash1_def append_nil_def sort_Strings_mem_def write_slice_def
      read_slice_def nil_slice_def sort_Strings_def Let_def)

text \<open>
  C10. \<open>Hash1\<close> does not write to its caller's list: after the call every backing array
  that existed before it holds what it held, so the caller's slice reads the same names
  in the same order. The names are sorted in an array that the call allocates.
\<close>

theorem Hash1_preserves_input:
  "array fls < length m \<Longrightarrow>
     take (length m) (snd (Hash1_mem sha256 m fls open')) = m \<and>
     read_slice (snd (Hash1_mem sha256 m fls open')) fls = read_slice m fls \<and>
     fst (Hash1_mem sha256 m fls open') = Hash1 sha256 (read_slice m fls) open'"
proof -
  assume a: "array fls < length m"
  have t: "take (length m) (snd (Hash1_mem sha256 m fls open')) = m"
    by (simp add: Hash1_mem_memory)
  have "snd (Hash1_mem sha256 m fls open') ! array fls = m ! array fls"
    using a by (simp add: Hash1_mem_memory nth_append)
  then have r: "read_slice (snd (Hash1_mem sha256 m fls open')) fls = read_slice m fls"
    by (simp add: read_slice_def)
  show ?thesis using t r Hash1_mem_result by blast
qed

theorem Hash1_preserves_input_witness:
  "read_slice mem0 caller_files = [''b.txt'', ''a.txt''] \<and>
   read_slice (snd (Hash1_mem sha_toy mem0 caller_files open_name)) caller_files
     = [''b.txt'', ''a.txt''] \<and>
   take 2 (snd (Hash1_mem sha_toy mem0 caller_files open_name)) = mem0"
proof -
  have a: "array caller_files < length mem0"
    by (simp add: caller_files_def mem0_def)
  have r: "read_slice mem0 caller_files = [''b.txt'', ''a.txt'']"
    by (simp add: read_slice_def caller_files_def mem0_def)
  have l: "length mem0 = 2"
    by (simp add: mem0_def)
  show ?thesis
    using Hash1_preserves_input [OF a, of sha_toy open_name] r l by simp
qed

section \<open>HashDir and HashZip\<close>

lemma zip_loop_names: "fst (zip_loop z (fls, zfiles)) = fls @ map Name z"
  by (induction z arbitrary: fls zfiles) simp_all

lemma zip_loop_entries:
  "(\<And>n f. zfiles n = Some f \<Longrightarrow> Name f = n \<and> P f) \<Longrightarrow> (\<And>f. f \<in> set z \<Longrightarrow> P f) \<Longrightarrow>
   snd (zip_loop z (fls, zfiles)) n = Some f \<Longrightarrow> Name f = n \<and> P f"
proof (induction z arbitrary: fls zfiles)
  case Nil
  then show ?case by simp
next
  case (Cons x z)
  have s: "snd (zip_loop z (fls @ [Name x], zfiles(Name x \<mapsto> x))) n = Some f"
    using Cons.prems(3) by simp
  have p: "\<And>n f. (zfiles(Name x \<mapsto> x)) n = Some f \<Longrightarrow> Name f = n \<and> P f"
    using Cons.prems(1,2) by (auto split: if_splits)
  show ?case
    by (rule Cons.IH [OF p _ s]) (simp_all add: Cons.prems(2))
qed

lemma zip_loop_dom:
  "dom (snd (zip_loop z (fls, zfiles))) = dom zfiles \<union> Name ` set z"
  by (induction z arbitrary: fls zfiles) auto

lemma zip_loop_same_content:
  "map Name z' = map Name z \<Longrightarrow> map Open z' = map Open z \<Longrightarrow>
   zipOpen zfiles' = zipOpen zfiles \<Longrightarrow>
   fst (zip_loop z' (fls, zfiles')) = fst (zip_loop z (fls, zfiles)) \<and>
   zipOpen (snd (zip_loop z' (fls, zfiles'))) = zipOpen (snd (zip_loop z (fls, zfiles)))"
proof (induction z arbitrary: z' fls zfiles zfiles')
  case Nil
  then show ?case by simp
next
  case (Cons x z)
  from Cons.prems(1) obtain x' r' where z': "z' = x' # r'"
    by (cases z') auto
  have n: "Name x' = Name x" "map Name r' = map Name z"
    using Cons.prems(1) z' by simp_all
  have c: "Open x' = Open x" "map Open r' = map Open z"
    using Cons.prems(2) z' by simp_all
  have "zipOpen (zfiles'(Name x \<mapsto> x')) k = zipOpen (zfiles(Name x \<mapsto> x)) k" for k
    using fun_cong [OF Cons.prems(3), of k] c(1) by (simp add: zipOpen_def)
  then have o: "zipOpen (zfiles'(Name x \<mapsto> x')) = zipOpen (zfiles(Name x \<mapsto> x))"
    by (rule ext)
  have "zip_loop z' (fls, zfiles') = zip_loop r' (fls @ [Name x], zfiles'(Name x \<mapsto> x'))"
    by (simp only: z' zip_loop.simps n(1))
  moreover have "zip_loop (x # z) (fls, zfiles) = zip_loop z (fls @ [Name x], zfiles(Name x \<mapsto> x))"
    by (simp only: zip_loop.simps)
  ultimately show ?case
    using Cons.IH [OF n(2) c(2) o, of "fls @ [Name x]"] by (simp only:)
qed

lemma HashZip_same_content:
  assumes "zip_OpenReader fs zipfile = Inr z" and "zip_OpenReader fs' zipfile' = Inr z'"
    and "map Name z' = map Name z" and "map Open z' = map Open z"
  shows "HashZip fs' zipfile' hash = HashZip fs zipfile hash"
proof -
  have "fst (zip_loop z' ([], Map.empty)) = fst (zip_loop z ([], Map.empty)) \<and>
        zipOpen (snd (zip_loop z' ([], Map.empty))) = zipOpen (snd (zip_loop z ([], Map.empty)))"
    using assms(3,4) by (rule zip_loop_same_content) simp
  then show ?thesis
    using assms(1,2) by (simp add: HashZip_def split_beta)
qed

text \<open>
  When the archive's entry names are the names that \<open>DirFiles\<close> lists for the tree, and
  every entry opens to the bytes that \<open>osOpen\<close> of \<open>HashDir\<close> (line 84) reads for that
  name, \<open>HashDir\<close> over the tree and \<open>HashZip\<close> over the archive return the same digest.
  The order of the entries, \<open>Method\<close>, \<open>Modified\<close> and \<open>ExternalAttrs\<close> are not
  constrained, and another archive with the same names and the same contents in the same
  order, whatever its metadata, has the same digest. Whether \<open>osOpen\<close> reads the file that
  was listed is another matter: see below.
\<close>

lemma HashDir_HashZip_opened_alike:
  assumes "DirFiles fs dir prefix' ignore = Inr fls"
    and "zip_OpenReader fs zipfile = Inr z"
    and "mset (map Name z) = mset fls"
    and "\<forall>f \<in> set z. \<exists>bytes. Open f = Inr (Inr bytes) \<and>
                                 osOpen fs dir prefix' (Name f) = Inr (Inr bytes)"
  shows "HashDir fs dir prefix' (Hash1 sha256) ignore = HashZip fs zipfile (Hash1 sha256)"
proof -
  obtain names zfiles where zl: "zip_loop z ([], Map.empty) = (names, zfiles)"
    by (cases "zip_loop z ([], Map.empty)")
  have names: "names = map Name z"
    using zip_loop_names [of z "[]" Map.empty] zl by simp
  have dom: "dom zfiles = Name ` set z"
    using zip_loop_dom [of z "[]" Map.empty] zl by simp
  have same: "zipOpen zfiles n = osOpen fs dir prefix' n" if n: "n \<in> set names" for n
  proof -
    from n names dom obtain f where f: "zfiles n = Some f" by auto
    have "snd (zip_loop z ([], Map.empty)) n = Some f" using zl f by simp
    then have "Name f = n \<and> (\<exists>bytes. Open f = Inr (Inr bytes) \<and>
                 osOpen fs dir prefix' (Name f) = Inr (Inr bytes))"
      by (rule zip_loop_entries [rotated 2]) (use assms(4) in simp_all)
    then show ?thesis using f by (auto simp: zipOpen_def)
  qed
  have "HashZip fs zipfile (Hash1 sha256) = Hash1 sha256 names (zipOpen zfiles)"
    using assms(2) zl by (simp add: HashZip_def)
  also have "\<dots> = Hash1 sha256 names (osOpen fs dir prefix')"
    by (rule Hash1_cong_open) (rule same)
  also have "\<dots> = Hash1 sha256 fls (osOpen fs dir prefix')"
    by (rule Hash1_mset) (use assms(3) in \<open>simp add: names\<close>)
  also have "\<dots> = HashDir fs dir prefix' (Hash1 sha256) ignore"
    using assms(1) by (simp add: HashDir_def)
  finally show ?thesis by simp
qed

lemma zip_fs_ab:
  "zip_OpenReader fs_ab ''mod.zip''
     = Inr [\<lparr>Name = ''v1/b.txt'', Method = 8, Modified = 1700000000,
              ExternalAttrs = 0, Open = Inr (Inr ''beta'')\<rparr>,
            \<lparr>Name = ''v1/a.txt'', Method = 0, Modified = 3,
              ExternalAttrs = 420, Open = Inr (Inr ''alpha'')\<rparr>]"
  "zip_OpenReader fs_ab ''rebuilt.zip''
     = Inr [\<lparr>Name = ''v1/b.txt'', Method = 0, Modified = 0,
              ExternalAttrs = 0, Open = Inr (Inr ''beta'')\<rparr>,
            \<lparr>Name = ''v1/a.txt'', Method = 8, Modified = 1700000555,
              ExternalAttrs = 33188, Open = Inr (Inr ''alpha'')\<rparr>]"
  by (simp_all add: fs_ab_def)

lemma osOpen_fs_ab:
  "osOpen fs_ab ''mod'' ''v1'' ''v1/a.txt'' = Inr (Inr ''alpha'')"
  "osOpen fs_ab ''mod'' ''v1'' ''v1/b.txt'' = Inr (Inr ''beta'')"
  by (simp_all add: osOpen_def fs_ab_def TrimPrefix_def HasPrefix_def Join_def Clean_def
      Separator_def)

lemma HashDir_HashZip_fs_ab:
  "HashDir fs_ab ''mod'' ''v1'' (Hash1 sha_toy) [] = HashZip fs_ab ''mod.zip'' (Hash1 sha_toy)"
  "HashZip fs_ab ''rebuilt.zip'' (Hash1 sha_toy) = HashZip fs_ab ''mod.zip'' (Hash1 sha_toy)"
proof -
  show "HashDir fs_ab ''mod'' ''v1'' (Hash1 sha_toy) [] = HashZip fs_ab ''mod.zip'' (Hash1 sha_toy)"
    by (rule HashDir_HashZip_opened_alike [OF DirFiles_fs_ab zip_fs_ab(1)])
       (simp_all add: osOpen_fs_ab)
  show "HashZip fs_ab ''rebuilt.zip'' (Hash1 sha_toy) = HashZip fs_ab ''mod.zip'' (Hash1 sha_toy)"
    by (rule HashZip_same_content [OF zip_fs_ab(1) zip_fs_ab(2)]) simp_all
qed

lemma entries_hidden_sorted:
  "sort_key fst [(''.hidden'', File), (''hidden'', File)]
     = [(''.hidden'', File), (''hidden'', File)]"
  by (simp add: less_eq_string_Cons)

lemma Join_hidden:
  "Join ''mod'' ''.hidden'' = ''mod/.hidden''" "Join ''mod'' ''hidden'' = ''mod/hidden''"
  "Join ''.'' ''.hidden'' = ''.hidden''" "Join ''.'' ''hidden'' = ''hidden''"
  by (simp_all add: Join_def Clean_def Separator_def)

lemma walk_fs_hidden:
  "walk ''mod'' (tree_at fs_hidden ''mod'')
     = [(''mod'', True, None), (''mod/.hidden'', False, None), (''mod/hidden'', False, None)]"
  by (simp add: fs_hidden_def entries_hidden_sorted Join_hidden)

lemma DirFiles_fs_hidden: "DirFiles fs_hidden ''mod'' ''.'' [] = Inr [''.hidden'', ''hidden'']"
  by (simp add: DirFiles_def Clean_mod walk_fs_hidden walk_fn_def HasPrefix_def Join_hidden
      ToSlash_def Separator_def)

lemma osOpen_fs_hidden:
  "osOpen fs_hidden ''mod'' ''.'' ''.hidden'' = Inr (Inr ''public'')"
  "osOpen fs_hidden ''mod'' ''.'' ''hidden'' = Inr (Inr ''public'')"
  by (simp_all add: osOpen_def TrimPrefix_def HasPrefix_def Join_hidden fs_hidden_def)

lemma sorted_hidden: "sort_Strings [''.hidden'', ''hidden''] = [''.hidden'', ''hidden'']"
  by (simp add: sort_Strings_def less_eq_string_Cons)

lemma HashDir_fs_hidden:
  "HashDir fs_hidden ''mod'' ''.'' (Hash1 sha_toy) []
     = Inr ''h1:Cm5lZGRpaCAgMDc1NzI2YzY5NjM2Cm5lZGRpaC4gIDA3NTcyNmM2OTYzNg==''"
  by (simp add: HashDir_def DirFiles_fs_hidden Hash1_def sorted_hidden osOpen_fs_hidden
      sha_toy_def hex_def hex_digit_def EncodeToString_def b64_digit_def)

lemma HashZip_fs_hidden:
  "HashZip fs_hidden ''mod.zip'' (Hash1 sha_toy)
     = Inr ''h1:Cm5lZGRpaCAgMDc1NzI2YzY5NjM2Cm5lZGRpaC4gIDM3NTYzNjI3NTY0Nw==''"
  by (simp add: HashZip_def fs_hidden_def Hash1_def sorted_hidden zipOpen_def
      sha_toy_def hex_def hex_digit_def EncodeToString_def b64_digit_def)

text \<open>
  C7. \<open>HashDir\<close> maps a listed name back to its file with
  \<open>strings.TrimPrefix(name, prefix)\<close> (line 84), but \<open>filepath.Join(prefix, rel)\<close> (line
  133) has cleaned the prefix \<open>.\<close> away from the listed names. For the directory \<open>mod\<close>
  with the files \<open>.hidden\<close> and \<open>hidden\<close> and the prefix \<open>.\<close>, \<open>DirFiles\<close> lists the names
  \<open>.hidden\<close> and \<open>hidden\<close>, and for the name \<open>.hidden\<close> \<open>HashDir\<close> opens \<open>mod/hidden\<close>:
  it hashes the bytes of the other file under that name. The archive that holds the same
  two names with each file's own bytes has another digest.
\<close>

theorem HashDir_reads_other_file:
  "DirFiles fs_hidden ''mod'' ''.'' [] = Inr [''.hidden'', ''hidden''] \<and>
   os_Open fs_hidden ''mod/.hidden'' = Inr (Inr ''secret'') \<and>
   os_Open fs_hidden ''mod/hidden'' = Inr (Inr ''public'') \<and>
   map (\<lambda>f. (Name f, Open f)) (projr (zip_OpenReader fs_hidden ''mod.zip''))
     = [(''.hidden'', Inr (Inr ''secret'')), (''hidden'', Inr (Inr ''public''))] \<and>
   osOpen fs_hidden ''mod'' ''.'' ''.hidden'' = Inr (Inr ''public'') \<and>
   HashDir fs_hidden ''mod'' ''.'' (Hash1 sha_toy) []
     = Inr ''h1:Cm5lZGRpaCAgMDc1NzI2YzY5NjM2Cm5lZGRpaC4gIDA3NTcyNmM2OTYzNg=='' \<and>
   HashZip fs_hidden ''mod.zip'' (Hash1 sha_toy)
     = Inr ''h1:Cm5lZGRpaCAgMDc1NzI2YzY5NjM2Cm5lZGRpaC4gIDM3NTYzNjI3NTY0Nw=='' \<and>
   HashDir fs_hidden ''mod'' ''.'' (Hash1 sha_toy) [] \<noteq> HashZip fs_hidden ''mod.zip'' (Hash1 sha_toy)"
  by (simp add: DirFiles_fs_hidden osOpen_fs_hidden HashDir_fs_hidden HashZip_fs_hidden)
     (simp add: fs_hidden_def)

section \<open>Execute: the environment of the command\<close>

text \<open>
  C1. With a non-nil \<open>Env\<close>, line 58 appends \<open>config.Args\<close>, not \<open>config.Env\<close>, to the
  ambient environment: the command is started with the environment \<open>PATH=/bin\<close>, \<open>1\<close>,
  and the configured entry \<open>MODE=test\<close> is not in it.
\<close>

theorem Execute_env_appends_args:
  "Env config0 = Some [''MODE=test''] \<and>
   hd (calls (Execute \<lparr>timeout = 30000\<rparr> world0 config0))
     = Start \<lparr>opt_Path = ''/bin/sleep'', opt_Args = [''1''], opt_Logfile = ''/tmp/sleep.log'',
              opt_Env = [''PATH=/bin'', ''1''], opt_Dir = []\<rparr> \<and>
   opt_Env (build_options world0 config0) \<noteq> Environ world0 @ [''MODE=test'']"
  by (simp add: Execute_def build_options_def world0_def config0_def timer_fires_def
      acts_first_def)

section \<open>The exec provider\<close>

text \<open>
  C2, as the claim states it, fails: on a state without any record, \<open>FindResource\<close>
  reports "not found" for the resource's id and \<open>Changed\<close> returns false.
\<close>

theorem Changed_fresh_state_counterexample:
  "FindResource [] (ID (config provider0)) = None \<and> fst (fst (Changed provider0)) = False"
  by (simp add: FindResource_def Changed_def)

text \<open>
  C2, amended. \<open>Changed\<close> of the exec provider returns false and no error for every
  provider; it does not read the state, and its only effect is one debug entry in the log.
\<close>

theorem Changed_always_false:
  "fst (Changed p) = (False, None) \<and>
   snd (Changed p) = p\<lparr>log := log p @ [Debug ''checking changes'']\<rparr>"
  by (simp add: Changed_def)

text \<open>
  C8, as the claim states it, fails: for an exec resource that is not a daemon, \<open>Destroy\<close>
  with a recorded pid of zero returns success without writing any warning.
\<close>

theorem Destroy_no_warning_counterexample:
  "PID (config provider0) = 0 \<and> Destroy Kill_fails provider0 = (None, provider0, []) \<and>
   log (fst (snd (Destroy Kill_fails provider0))) = []"
  by (simp add: Destroy_def provider0_def exec0_def)

text \<open>
  C8, amended. \<open>Destroy\<close> returns success (no error) for every exec resource. For a local
  daemon (\<open>Daemon\<close> set, no \<open>Image\<close>, no \<open>Target\<close>) whose recorded pid is zero or negative
  it writes one warning and does not call \<open>Kill\<close>; for a local daemon with a positive pid
  it calls \<open>Kill\<close> once and, when \<open>Kill\<close> fails, writes one warning. For any other exec
  resource it neither warns nor calls \<open>Kill\<close>.
\<close>

theorem Destroy_succeeds:
  "fst (Destroy Kill p) = None \<and>
   (Daemon (config p) \<and> Image (config p) = None \<and> Target (config p) = None \<longrightarrow>
      (PID (config p) < 1 \<longrightarrow>
         Destroy Kill p
           = (None, p\<lparr>log := log p @ [Warn ''unable to stop local process, no pid'']\<rparr>, [])) \<and>
      (1 \<le> PID (config p) \<and> Kill (PID (config p)) \<noteq> None \<longrightarrow>
         Destroy Kill p
           = (None, p\<lparr>log := log p @ [Warn ''error cleaning up daemonized process'']\<rparr>,
              [PID (config p)])) \<and>
      (1 \<le> PID (config p) \<and> Kill (PID (config p)) = None \<longrightarrow>
         Destroy Kill p = (None, p, [PID (config p)]))) \<and>
   (\<not> (Daemon (config p) \<and> Image (config p) = None \<and> Target (config p) = None) \<longrightarrow>
      Destroy Kill p = (None, p, []))"
  by (auto simp: Destroy_def split: option.splits)

theorem Destroy_succeeds_witness:
  "Destroy Kill_fails provider_daemon
     = (None, provider_daemon\<lparr>log := [Warn ''unable to stop local process, no pid'']\<rparr>, []) \<and>
   Destroy Kill_fails provider_running
     = (None, provider_running\<lparr>log := [Warn ''error cleaning up daemonized process'']\<rparr>, [42]) \<and>
   Destroy (\<lambda>pid. None) provider_running = (None, provider_running, [42]) \<and>
   Destroy Kill_fails provider0 = (None, provider0, [])"
proof -
  have d: "Daemon (config provider_daemon) \<and> Image (config provider_daemon) = None \<and>
           Target (config provider_daemon) = None \<and> PID (config provider_daemon) < 1"
    by (simp add: provider_daemon_def exec0_def)
  have r: "Daemon (config provider_running) \<and> Image (config provider_running) = None \<and>
           Target (config provider_running) = None \<and> PID (config provider_running) = 42"
    by (simp add: provider_running_def exec0_def)
  have n: "\<not> Daemon (config provider0)"
    by (simp add: provider0_def exec0_def)
  have l: "log provider_daemon = []" "log provider_running = []"
    by (simp_all add: provider_daemon_def provider_running_def)
  have 1: "Destroy Kill_fails provider_daemon
     = (None, provider_daemon\<lparr>log := [Warn ''unable to stop local process, no pid'']\<rparr>, [])"
    using Destroy_succeeds [of Kill_fails provider_daemon] d l by simp
  have 2: "Destroy Kill_fails provider_running
     = (None, provider_running\<lparr>log := [Warn ''error cleaning up daemonized process'']\<rparr>, [42])"
    using Destroy_succeeds [of Kill_fails provider_running] r l by (simp add: Kill_fails_def)
  have 3: "Destroy (\<lambda>pid. None) provider_running = (None, provider_running, [42])"
    using Destroy_succeeds [of "\<lambda>pid. None" provider_running] r by simp
  have 4: "Destroy Kill_fails provider0 = (None, provider0, [])"
    using Destroy_succeeds [of Kill_fails provider0] n by simp
  show ?thesis using 1 2 3 4 by simp
qed

section \<open>Execute: timeout and background\<close>

declare poll.simps [simp del]

declare late_polls.simps [simp del]



lemma build_options_query:
  "build_options (w\<lparr>lp_QueryStatus := q\<rparr>) cfg = build_options w cfg"
  by (simp add: build_options_def)

lemma timer_fires_query:
  "timer_fires (w\<lparr>lp_QueryStatus := q\<rparr>) deadline now = timer_fires w deadline now"
  by (simp add: timer_fires_def acts_first_def)











text \<open>
  With \<open>RunInBackground\<close> set, the result of \<open>Execute\<close> does not depend on what the status
  queries of the started process would answer, and when \<open>lp.Start\<close> succeeds and returns
  before the timer fires \<open>Execute\<close> returns at that moment with the started pid, having
  called \<open>lp.Start\<close> only.
\<close>

lemma Execute_background_started:
  "RunInBackground cfg \<Longrightarrow>
   (\<forall>q. Execute c (w\<lparr>lp_QueryStatus := q\<rparr>) cfg = Execute c w cfg) \<and>
   (lp_Start w (build_options w cfg) = (pid, pidfile, None) \<and>
    \<not> timer_fires w (nat (timeout c)) (GoroutineDelay w + StartDuration w) \<longrightarrow>
      Execute c w cfg = \<lparr>ret_pid = pid, ret_err = None,
                          returned_at = GoroutineDelay w + StartDuration w,
                          calls = [Start (build_options w cfg)]\<rparr>)"
  by (auto simp: Execute_def Let_def build_options_query timer_fires_def acts_first_def
      split: prod.splits option.splits)

text \<open>
  C4. The timer of line 69 is armed for a background execution as well, and the \<open>select\<close>
  of line 110 does not look at \<open>RunInBackground\<close>. With a timeout of 2 ms and a start that
  takes 5 ms, \<open>Execute\<close> on a background command returns the timeout error and pid 0 after
  calling \<open>lp.Stop\<close> on an empty pid file; when \<open>lp.Stop\<close> is slow it returns the timeout
  error together with the started pid. In neither case does it return as the started
  process would have it: the pid without an error.
\<close>

theorem Execute_background_times_out:
  "RunInBackground config_bg \<and>
   ret_err (Execute \<lparr>timeout = 2\<rparr> world0 config_bg) = Some ErrorCommandTimeout \<and>
   ret_pid (Execute \<lparr>timeout = 2\<rparr> world0 config_bg) = 0 \<and>
   stops (calls (Execute \<lparr>timeout = 2\<rparr> world0 config_bg)) = [[]] \<and>
   ret_err (Execute \<lparr>timeout = 3\<rparr> world_slow_stop config_bg) = Some ErrorCommandTimeout \<and>
   ret_pid (Execute \<lparr>timeout = 3\<rparr> world_slow_stop config_bg) = 42 \<and>
   Execute \<lparr>timeout = 30000\<rparr> world0 config_bg
     = \<lparr>ret_pid = 42, ret_err = None, returned_at = 5,
        calls = [Start (build_options world0 config_bg)]\<rparr>"
  by (simp add: Execute_def Let_def world0_def world_slow_stop_def config_bg_def config0_def
      timer_fires_def acts_first_def)

section \<open>DirFiles: ignored directories\<close>

lemma entries_dot_sorted:
  "sort_key fst [(''a.txt'', File), (''d'', Dir [(''b.txt'', File)])]
     = [(''a.txt'', File), (''d'', Dir [(''b.txt'', File)])]"
  by (simp add: less_eq_string_Cons)

lemma Join_dot:
  "Join ''.'' ''a.txt'' = ''a.txt''" "Join ''.'' ''d'' = ''d''" "Join ''d'' ''b.txt'' = ''d/b.txt''"
  by (simp_all add: Join_def Clean_def Separator_def)

lemma walk_fs_dot:
  "walk ''.'' (tree_at fs_dot ''.'')
     = [(''.'', True, None), (''a.txt'', False, None), (''d'', True, None),
        (''d/b.txt'', False, None)]"
  by (simp add: fs_dot_def entries_dot_sorted Join_dot)

lemma Clean_dot: "Clean ''.'' = ''.''"
  by (simp add: Clean_def Separator_def)

lemma Glob_dot: "Glob ''.'' s = (s = ''.'')"
  by (simp add: Glob_def)

lemma Glob_d: "Glob ''d'' s = (s = ''d'')"
  by (simp add: Glob_def)

text \<open>
  The mechanism of lines 106-127 in general: once the walk has passed a directory that
  matches an ignore glob, the walk function leaves the variables as they are at every file
  whose path starts with the path of that directory.
\<close>

lemma ignore_loop_vars:
  "ignore_loop ignore file isDir v = Some v' \<Longrightarrow>
   files v' = files v \<and> set (ignoredDirectories v) \<subseteq> set (ignoredDirectories v') \<and>
   (\<not> isDir \<longrightarrow> v' = v)"
  by (induction ignore) (auto split: if_splits)

lemma ignore_loop_match:
  "g \<in> set ignore \<Longrightarrow> Glob g d \<Longrightarrow>
   \<exists>v'. ignore_loop ignore d True v = Some v' \<and> d \<in> set (ignoredDirectories v')"
  by (induction ignore) auto

lemma walk_fn_ignored_mono:
  "walk_fn dir prefix' ignore v vis = Inr v' \<Longrightarrow>
   set (ignoredDirectories v) \<subseteq> set (ignoredDirectories v')"
  by (cases vis)
     (auto simp: walk_fn_def Let_def split: option.splits if_splits dest: ignore_loop_vars)

lemma walk_all_ignored_mono:
  "walk_all (walk_fn dir prefix' ignore) v vs = Inr v' \<Longrightarrow>
   set (ignoredDirectories v) \<subseteq> set (ignoredDirectories v')"
proof (induction vs arbitrary: v)
  case Nil
  then show ?case by simp
next
  case (Cons vis vs)
  then obtain v1 where 1: "walk_fn dir prefix' ignore v vis = Inr v1"
    and 2: "walk_all (walk_fn dir prefix' ignore) v1 vs = Inr v'"
    by (auto split: sum.splits)
  show ?case
    using walk_fn_ignored_mono [OF 1] Cons.IH [OF 2] by blast
qed

lemma walk_all_append:
  "walk_all fn v (xs @ ys)
     = (case walk_all fn v xs of Inl e \<Rightarrow> Inl e | Inr v' \<Rightarrow> walk_all fn v' ys)"
  by (induction xs arbitrary: v) (auto split: sum.splits)

lemma walk_fn_below_ignored:
  "d \<in> set (ignoredDirectories v) \<Longrightarrow> HasPrefix file d \<Longrightarrow> file \<noteq> dir \<Longrightarrow>
   walk_fn dir prefix' ignore v (file, False, None) = Inr v"
  by (auto simp: walk_fn_def split: option.splits dest: ignore_loop_vars)

lemma walk_after_ignored_directory:
  assumes "walk_all (walk_fn dir prefix' ignore) v0 (before @ (d, True, None) # between) = Inr v"
    and "g \<in> set ignore" and "Glob g d" and "HasPrefix file d" and "file \<noteq> dir"
  shows "walk_fn dir prefix' ignore v (file, False, None) = Inr v"
proof -
  from assms(1) obtain v1 v2 where
    1: "walk_all (walk_fn dir prefix' ignore) v0 before = Inr v1" and
    2: "walk_fn dir prefix' ignore v1 (d, True, None) = Inr v2" and
    3: "walk_all (walk_fn dir prefix' ignore) v2 between = Inr v"
    by (auto simp: walk_all_append split: sum.splits)
  from ignore_loop_match [OF assms(2,3), of v1] 2
  have "d \<in> set (ignoredDirectories v2)"
    by (auto simp: walk_fn_def)
  with walk_all_ignored_mono [OF 3] have "d \<in> set (ignoredDirectories v)"
    by blast
  then show ?thesis
    using assms(4,5) by (rule walk_fn_below_ignored)
qed

text \<open>
  C6. For the directory \<open>.\<close> the walker reports the root as \<open>.\<close> and the files below
  it without any \<open>./\<close> in front, so the prefix test of lines 123-127 never finds an
  ignored root. With the ignore glob \<open>.\<close>, the root directory matches and is recorded
  as ignored, and both files beneath it are still listed. For the subdirectory \<open>d\<close> the
  same test works: with the glob \<open>d\<close> the file \<open>d/b.txt\<close> is left out.
\<close>

theorem DirFiles_ignored_root_listed:
  "Glob ''.'' ''.'' \<and>
   hd (walk ''.'' (tree_at fs_dot ''.'')) = (''.'', True, None) \<and>
   DirFiles fs_dot ''.'' ''v1'' [''.''] = Inr [''v1/a.txt'', ''v1/d/b.txt''] \<and>
   DirFiles fs_dot ''.'' ''v1'' [''d''] = Inr [''v1/a.txt'']"
  by (simp add: DirFiles_def Clean_dot walk_fs_dot walk_fn_def Glob_dot Glob_d HasPrefix_def
      Join_def Clean_def Separator_def ToSlash_def)

section \<open>The Process hooks and the loaded state\<close>

text \<open>
  C9, as the claim states it, fails for exec resources: the hook rejects a local exec with
  a volume, so with no record in the state \<open>Process\<close> does not succeed.
\<close>

theorem Exec_Process_rejects_counterexample:
  "FindResource [] (ID exec_volumes) = None \<and>
   Exec_Process absolute_in_work (Inr []) exec_volumes
     = Inl (Error ''unable to create local exec with networks or volumes'')"
  by (simp add: FindResource_def Exec_Process_def exec_volumes_def exec0_def)

text \<open>
  C9, amended. When the loaded state holds a record for the resource's id, the hook
  succeeds and copies the stored output into the resource: \<open>Value\<close> for a random_uuid,
  \<open>JobChecksums\<close> for a nomad_job, \<open>PID\<close> for an exec. When the state holds no record, the
  hook succeeds and leaves that field as it was. For an exec this holds for the
  configurations the hook accepts; a local exec (no image, no target) with networks or
  volumes is rejected with an error, with or without a record.
\<close>

theorem Process_rehydrates:
  "(FindResource st (ID c) = Some (RandomUUID_res r) \<longrightarrow>
      RandomUUID_Process (Inr st) c = Inr (c\<lparr>Value := Value r\<rparr>)) \<and>
   (FindResource st (ID c) = None \<longrightarrow> RandomUUID_Process (Inr st) c = Inr c) \<and>
   (FindResource st (ID n) = Some (NomadJob_res k) \<longrightarrow>
      NomadJob_Process ea (Inr st) n
        = Inr (n\<lparr>Paths := map (\<lambda>p. ea p (ResourceFile n)) (Paths n),
                  JobChecksums := JobChecksums k\<rparr>)) \<and>
   (FindResource st (ID n) = None \<longrightarrow>
      NomadJob_Process ea (Inr st) n
        = Inr (n\<lparr>Paths := map (\<lambda>p. ea p (ResourceFile n)) (Paths n)\<rparr>)) \<and>
   (\<not> (Image e = None \<and> Target e = None \<and> (Networks e \<noteq> [] \<or> Volumes e \<noteq> [])) \<longrightarrow>
      (FindResource st (ID e) = Some (Exec_res x) \<longrightarrow>
         (\<exists>e'. Exec_Process ea (Inr st) e = Inr e' \<and> PID e' = PID x)) \<and>
      (FindResource st (ID e) = None \<longrightarrow>
         (\<exists>e'. Exec_Process ea (Inr st) e = Inr e' \<and> PID e' = PID e))) \<and>
   (Image e = None \<and> Target e = None \<and> (Networks e \<noteq> [] \<or> Volumes e \<noteq> []) \<longrightarrow>
      Exec_Process ea loaded e
        = Inl (Error ''unable to create local exec with networks or volumes''))"
  by (auto simp: RandomUUID_Process_def NomadJob_Process_def Exec_Process_def Let_def)

lemma FindResource_state0:
  "FindResource state0 ''resource.exec.test'' = Some (Exec_res (exec0\<lparr>PID := 42\<rparr>))"
  "FindResource state0 ''resource.random_uuid.token''
     = Some (RandomUUID_res (uuid0\<lparr>Value := ''0b3c1d9e-5f1a-4c1e-9d53-2f0c6a1b7e11''\<rparr>))"
  "FindResource state0 ''resource.nomad_job.web''
     = Some (NomadJob_res (job0\<lparr>JobChecksums := [''h1:abc='']\<rparr>))"
  by (simp_all add: FindResource_def state0_def exec0_def uuid0_def job0_def)

theorem Process_rehydrates_witness:
  "RandomUUID_Process (Inr state0) uuid0
     = Inr (uuid0\<lparr>Value := ''0b3c1d9e-5f1a-4c1e-9d53-2f0c6a1b7e11''\<rparr>) \<and>
   RandomUUID_Process (Inr []) uuid0 = Inr uuid0 \<and>
   NomadJob_Process absolute_in_work (Inr state0) job0
     = Inr (job0\<lparr>Paths := [''/work/./jobs/web.hcl''], JobChecksums := [''h1:abc='']\<rparr>) \<and>
   (\<exists>e'. Exec_Process absolute_in_work (Inr state0) exec0 = Inr e' \<and> PID e' = 42) \<and>
   (\<exists>e'. Exec_Process absolute_in_work (Inr []) exec0 = Inr e' \<and> PID e' = 0) \<and>
   Exec_Process absolute_in_work (Inr state0) exec_volumes
     = Inl (Error ''unable to create local exec with networks or volumes'')"
proof -
  have ids: "ID uuid0 = ''resource.random_uuid.token''" "ID job0 = ''resource.nomad_job.web''"
    "ID exec0 = ''resource.exec.test''"
    by (simp_all add: uuid0_def job0_def exec0_def)
  have ok: "\<not> (Image exec0 = None \<and> Target exec0 = None \<and>
                (Networks exec0 \<noteq> [] \<or> Volumes exec0 \<noteq> []))"
    by (simp add: exec0_def)
  have bad: "Image exec_volumes = None \<and> Target exec_volumes = None \<and>
             (Networks exec_volumes \<noteq> [] \<or> Volumes exec_volumes \<noteq> [])"
    by (simp add: exec_volumes_def exec0_def)
  have none: "FindResource [] (ID uuid0) = None" "FindResource [] (ID exec0) = None"
    by (simp_all add: FindResource_def)
  have paths: "map (\<lambda>p. absolute_in_work p (ResourceFile job0)) (Paths job0)
                 = [''/work/./jobs/web.hcl'']"
    by (simp add: job0_def absolute_in_work_def HasPrefix_def)
  have pid: "PID (exec0\<lparr>PID := 42\<rparr>) = 42" "PID exec0 = 0"
    by (simp_all add: exec0_def)
  have val: "Value (uuid0\<lparr>Value := ''0b3c1d9e-5f1a-4c1e-9d53-2f0c6a1b7e11''\<rparr>)
               = ''0b3c1d9e-5f1a-4c1e-9d53-2f0c6a1b7e11''"
    "JobChecksums (job0\<lparr>JobChecksums := [''h1:abc='']\<rparr>) = [''h1:abc='']"
    by simp_all
  have 1: "RandomUUID_Process (Inr state0) uuid0
             = Inr (uuid0\<lparr>Value := ''0b3c1d9e-5f1a-4c1e-9d53-2f0c6a1b7e11''\<rparr>)"
    using Process_rehydrates [where st = state0 and c = uuid0
        and r = "uuid0\<lparr>Value := ''0b3c1d9e-5f1a-4c1e-9d53-2f0c6a1b7e11''\<rparr>"]
      FindResource_state0(2) ids(1) val(1) by simp
  have 2: "RandomUUID_Process (Inr []) uuid0 = Inr uuid0"
    using Process_rehydrates [where st = "[]" and c = uuid0] none(1) by simp
  have 3: "NomadJob_Process absolute_in_work (Inr state0) job0
             = Inr (job0\<lparr>Paths := [''/work/./jobs/web.hcl''], JobChecksums := [''h1:abc='']\<rparr>)"
    using Process_rehydrates [where st = state0 and n = job0
        and k = "job0\<lparr>JobChecksums := [''h1:abc='']\<rparr>" and ea = absolute_in_work]
      FindResource_state0(3) ids(2) val(2) paths by simp
  have 4: "\<exists>e'. Exec_Process absolute_in_work (Inr state0) exec0 = Inr e' \<and> PID e' = 42"
    using Process_rehydrates [where st = state0 and e = exec0 and x = "exec0\<lparr>PID := 42\<rparr>"
        and ea = absolute_in_work]
      FindResource_state0(1) ids(3) ok pid(1) by auto
  have 5: "\<exists>e'. Exec_Process absolute_in_work (Inr []) exec0 = Inr e' \<and> PID e' = 0"
    using Process_rehydrates [where st = "[]" and e = exec0 and ea = absolute_in_work] none(2) ok pid(2)
    by auto
  have 6: "Exec_Process absolute_in_work (Inr state0) exec_volumes
             = Inl (Error ''unable to create local exec with networks or volumes'')"
    using Process_rehydrates [where e = exec_volumes and ea = absolute_in_work
        and loaded = "Inr state0"] bad
    by auto
  show ?thesis using 1 2 3 4 5 6 by simp
qed

end
